theory Spec2Isabelle
  imports Main "HOL-Library.Word"
begin

section \<open>Recovering a function name from a source line\<close>

text \<open>
  The preload script overrides the sourcemapper's \<open>mappingInfo\<close> and, when a resolved
  position carries no symbol name, looks at the cached original source line with three
  regular expressions (\<open>extractFunctionName\<close>). A JavaScript string is modelled as a
  \<open>string\<close> whose characters are the code units below 256. The regular expressions are
  written out as matchers: each \<open>_at\<close> function matches its expression at the start of
  the text it is given, and \<open>search\<close> tries the start positions from left to right, as
  \<open>String.prototype.match\<close> does for an expression without the \<open>g\<close> flag.
\<close>

definition is_space :: "char \<Rightarrow> bool" where
  \<comment> \<open>the class \<open>\s\<close> on code units below 256: TAB, LF, VT, FF, CR, space, NBSP\<close>
  "is_space c = (of_char c \<in> {9, 10, 11, 12, 13, 32, 160 :: nat})"

definition is_ident_start :: "char \<Rightarrow> bool" where
  \<comment> \<open>\<open>[a-zA-Z_$]\<close>\<close>
  "is_ident_start c =
     (let n = (of_char c :: nat)
      in (97 \<le> n \<and> n \<le> 122) \<or> (65 \<le> n \<and> n \<le> 90) \<or> c = CHR ''_'' \<or> c = CHR ''$'')"

definition is_ident_char :: "char \<Rightarrow> bool" where
  \<comment> \<open>\<open>[a-zA-Z0-9_$]\<close>\<close>
  "is_ident_char c =
     (is_ident_start c \<or> (let n = (of_char c :: nat) in 48 \<le> n \<and> n \<le> 57))"

definition lit :: "string \<Rightarrow> string \<Rightarrow> string option" where
  \<comment> \<open>a literal: the rest of the text when the text starts with it\<close>
  "lit p s = (if take (length p) s = p then Some (drop (length p) s) else None)"

definition spaces1 :: "string \<Rightarrow> string option" where
  \<comment> \<open>\<open>\s+\<close>, greedy\<close>
  "spaces1 s =
     (case s of
        [] \<Rightarrow> None
      | c # cs \<Rightarrow> if is_space c then Some (dropWhile is_space cs) else None)"

definition ident :: "string \<Rightarrow> (string \<times> string) option" where
  \<comment> \<open>the group \<open>([a-zA-Z_$][a-zA-Z0-9_$]*)\<close>, greedy: the capture and the rest\<close>
  "ident s =
     (case s of
        [] \<Rightarrow> None
      | c # cs \<Rightarrow>
          if is_ident_start c
          then Some (c # takeWhile is_ident_char cs, dropWhile is_ident_char cs)
          else None)"

definition name_paren :: "string \<Rightarrow> string option" where
  \<comment> \<open>\<open>([a-zA-Z_$][a-zA-Z0-9_$]*)\s*\(\<close>: the capture\<close>
  "name_paren s =
     (case ident s of
        None \<Rightarrow> None
      | Some (n, r) \<Rightarrow>
          (case lit ''('' (dropWhile is_space r) of None \<Rightarrow> None | Some _ \<Rightarrow> Some n))"

definition func_rest :: "string \<Rightarrow> string option" where
  \<comment> \<open>\<open>function\s+([a-zA-Z_$][a-zA-Z0-9_$]*)\s*\(\<close>\<close>
  "func_rest s =
     (case lit ''function'' s of
        None \<Rightarrow> None
      | Some r \<Rightarrow> (case spaces1 r of None \<Rightarrow> None | Some r' \<Rightarrow> name_paren r'))"

definition func_at :: "string \<Rightarrow> string option" where
  \<comment> \<open>\<open>(?:async\s+)?function\s+(...)\s*\(\<close>: the optional group is tried first,
      and given up when the rest fails with it\<close>
  "func_at s =
     (case (case lit ''async'' s of
              None \<Rightarrow> None
            | Some r \<Rightarrow> (case spaces1 r of None \<Rightarrow> None | Some r' \<Rightarrow> func_rest r')) of
        Some n \<Rightarrow> Some n
      | None \<Rightarrow> func_rest s)"

definition arrow_tail :: "string \<Rightarrow> bool" where
  \<comment> \<open>\<open>(?:async\s*)?\(\<close>\<close>
  "arrow_tail s =
     ((case lit ''async'' s of
         None \<Rightarrow> False
       | Some r \<Rightarrow> lit ''('' (dropWhile is_space r) \<noteq> None)
      \<or> lit ''('' s \<noteq> None)"

definition arrow_at :: "string \<Rightarrow> string option" where
  \<comment> \<open>\<open>([a-zA-Z_$][a-zA-Z0-9_$]*)\s*[=:]\s*(?:async\s*)?\(\<close>\<close>
  "arrow_at s =
     (case ident s of
        None \<Rightarrow> None
      | Some (n, r) \<Rightarrow>
          (case dropWhile is_space r of
             [] \<Rightarrow> None
           | c # r1 \<Rightarrow>
               if (c = CHR ''='' \<or> c = CHR '':'') \<and> arrow_tail (dropWhile is_space r1)
               then Some n else None))"

definition method_at :: "string \<Rightarrow> string option" where
  \<comment> \<open>\<open>^\s*(?:async\s+)?([a-zA-Z_$][a-zA-Z0-9_$]*)\s*\(\<close>, anchored at the start of the line\<close>
  "method_at s =
     (let r0 = dropWhile is_space s
      in case (case lit ''async'' r0 of
                 None \<Rightarrow> None
               | Some r \<Rightarrow> (case spaces1 r of None \<Rightarrow> None | Some r' \<Rightarrow> name_paren r')) of
           Some n \<Rightarrow> Some n
         | None \<Rightarrow> name_paren r0)"

fun search :: "(string \<Rightarrow> 'a option) \<Rightarrow> string \<Rightarrow> 'a option" where
  "search m [] = m []"
| "search m (c # cs) = (case m (c # cs) of Some r \<Rightarrow> Some r | None \<Rightarrow> search m cs)"

definition extractFunctionName :: "string \<Rightarrow> string option" where
  \<comment> \<open>\<open>None\<close> is the source's \<open>null\<close>; the empty line is falsy and returns at once\<close>
  "extractFunctionName sourceLine =
     (if sourceLine = [] then None
      else case search func_at sourceLine of
             Some n \<Rightarrow> Some n
           | None \<Rightarrow>
               (case search arrow_at sourceLine of
                  Some n \<Rightarrow> Some n
                | None \<Rightarrow> method_at sourceLine))"


section \<open>The profiler controller\<close>

text \<open>
  The module-level variables of the preload script are the fields of \<open>state\<close>. The
  sampling engine, the file system and the two renderers are outside the repository:
  every call to them that returns is appended to \<open>trace\<close>, and whether a call throws
  is read from the environment \<open>env\<close> of the handler invocation, which also carries the
  clock. The trace also records each call of \<open>stopProfilerQuick\<close> and of
  \<open>stopProfilerAndSave\<close> (with its argument) and the call of the original
  \<open>process.exit\<close>, so that stop sequences can be counted.
\<close>

datatype fault =
    CpuStartThrows | HeapStartThrows
  | CpuStopThrows | CpuEncodeThrows | CpuWriteThrows
  | HeapProfileThrows | HeapStopThrows | HeapEncodeThrows | HeapWriteThrows

record env =
  toISOString :: string
  throws :: "fault set"

datatype action =
    CpuStart "nat option"
  | HeapStart nat nat
  | CpuStop
  | HeapProfile "nat option"
  | HeapStop
  | WriteFile string
  | GenerateFlamegraph string string
  | GenerateMarkdown string string string
  | StopQuickCalled
  | StopAndSaveCalled bool
  | OriginalExit

record state =
  isCpuProfilerRunning :: bool
  isHeapProfilerRunning :: bool
  sourceMapper :: "nat option"
  mdFormat :: string
  exitHandlerCalled :: bool
  trace :: "action list"

definition emit :: "action \<Rightarrow> state \<Rightarrow> state" where
  "emit a s = s\<lparr>trace := trace s @ [a]\<rparr>"

definition timestamp :: "env \<Rightarrow> string" where
  \<comment> \<open>\<open>new Date().toISOString().replace(/[:.]/g, '-')\<close>\<close>
  "timestamp e =
     map (\<lambda>c. if c = CHR '':'' \<or> c = CHR ''.'' then CHR ''-'' else c) (toISOString e)"

definition cpuFilename :: "string \<Rightarrow> string" where
  "cpuFilename ts = ''cpu-profile-'' @ ts @ ''.pb''"

definition heapFilename :: "string \<Rightarrow> string" where
  "heapFilename ts = ''heap-profile-'' @ ts @ ''.pb''"

fun replace_first :: "string \<Rightarrow> string \<Rightarrow> string \<Rightarrow> string" where
  \<comment> \<open>\<open>s.replace(pat, rep)\<close> with a string pattern: the first occurrence only\<close>
  "replace_first pat rep [] = (if pat = [] then rep else [])"
| "replace_first pat rep (c # cs) =
     (if take (length pat) (c # cs) = pat then rep @ drop (length pat) (c # cs)
      else c # replace_first pat rep cs)"

definition flamegraph_call :: "string \<Rightarrow> action" where
  "flamegraph_call f = GenerateFlamegraph f (replace_first ''.pb'' ''.html'' f)"

definition markdown_call :: "string \<Rightarrow> state \<Rightarrow> action" where
  "markdown_call f s = GenerateMarkdown f (replace_first ''.pb'' ''.md'' f) (mdFormat s)"

text \<open>
  The two blocks that stop one sampler, encode its profile and write it. \<open>Inl\<close> is a
  throw, with the state reached at that point; the running flag is cleared only after
  the write. The same lines stand in \<open>stopProfilerQuick\<close> and in \<open>stopProfilerAndSave\<close>.
\<close>

definition cpu_save :: "env \<Rightarrow> string \<Rightarrow> string list \<Rightarrow> state \<Rightarrow> state + (string list \<times> state)" where
  "cpu_save e ts filenames s =
     (if CpuStopThrows \<in> throws e then Inl s
      else let s1 = emit CpuStop s
           in if CpuEncodeThrows \<in> throws e \<or> CpuWriteThrows \<in> throws e then Inl s1
              else Inr (filenames @ [cpuFilename ts],
                        (emit (WriteFile (cpuFilename ts)) s1)\<lparr>isCpuProfilerRunning := False\<rparr>))"

definition heap_save :: "env \<Rightarrow> string \<Rightarrow> string list \<Rightarrow> state \<Rightarrow> state + (string list \<times> state)" where
  "heap_save e ts filenames s =
     (if HeapProfileThrows \<in> throws e then Inl s
      else let s1 = emit (HeapProfile (sourceMapper s)) s
           in if HeapStopThrows \<in> throws e then Inl s1
              else let s2 = emit HeapStop s1
                   in if HeapEncodeThrows \<in> throws e \<or> HeapWriteThrows \<in> throws e then Inl s2
                      else Inr (filenames @ [heapFilename ts],
                                (emit (WriteFile (heapFilename ts)) s2)
                                  \<lparr>isHeapProfilerRunning := False\<rparr>))"

definition catch_reset :: "state + (string list \<times> state) \<Rightarrow> string list option \<times> state" where
  \<comment> \<open>the outer \<open>try\<close>/\<open>catch\<close>: a throw clears both flags and the function returns \<open>null\<close>\<close>
  "catch_reset r =
     (case r of
        Inl s \<Rightarrow> (None, s\<lparr>isCpuProfilerRunning := False, isHeapProfilerRunning := False\<rparr>)
      | Inr (filenames, s) \<Rightarrow> (Some filenames, s))"

definition stopProfilerQuick :: "env \<Rightarrow> state \<Rightarrow> string list option \<times> state" where
  "stopProfilerQuick e s0 =
     (let s = emit StopQuickCalled s0
      in if \<not> isCpuProfilerRunning s \<and> \<not> isHeapProfilerRunning s then (None, s)
         else let ts = timestamp e
              in catch_reset
                   (case (if isCpuProfilerRunning s then cpu_save e ts [] s else Inr ([], s)) of
                      Inl s' \<Rightarrow> Inl s'
                    | Inr (filenames, s1) \<Rightarrow>
                        if isHeapProfilerRunning s1 then heap_save e ts filenames s1
                        else Inr (filenames, s1)))"

text \<open>
  \<open>stopProfilerAndSave\<close> run from its call to its return with no other handler in
  between. A rejected rendering is caught by the inner \<open>try\<close>/\<open>catch\<close> and only logged,
  so the two renderer calls are effects with no failure branch.
\<close>

definition render :: "string \<Rightarrow> state \<Rightarrow> state" where
  "render f s = emit (markdown_call f s) (emit (flamegraph_call f) s)"

definition stopProfilerAndSave :: "bool \<Rightarrow> env \<Rightarrow> state \<Rightarrow> string list option \<times> state" where
  "stopProfilerAndSave generateHtml e s0 =
     (let s = emit (StopAndSaveCalled generateHtml) s0
      in if \<not> isCpuProfilerRunning s \<and> \<not> isHeapProfilerRunning s then (None, s)
         else let ts = timestamp e
              in catch_reset
                   (case (if isCpuProfilerRunning s
                          then (case cpu_save e ts [] s of
                                  Inl s' \<Rightarrow> Inl s'
                                | Inr (filenames, s1) \<Rightarrow>
                                    Inr (filenames,
                                         if generateHtml then render (cpuFilename ts) s1 else s1))
                          else Inr ([], s)) of
                      Inl s' \<Rightarrow> Inl s'
                    | Inr (filenames, s1) \<Rightarrow>
                        if isHeapProfilerRunning s1
                        then (case heap_save e ts filenames s1 of
                                Inl s' \<Rightarrow> Inl s'
                              | Inr (filenames', s2) \<Rightarrow>
                                  Inr (filenames',
                                       if generateHtml then render (heapFilename ts) s2 else s2))
                        else Inr (filenames, s1)))"

text \<open>
  \<open>toggleProfiler\<close>. The boolean is \<open>False\<close> when a \<open>start\<close> call threw and the exception
  left the handler; the flags are then as they were. \<open>stopProfilerAndSave(false)\<close> has no
  \<open>await\<close>, so it has returned when \<open>toggleProfiler\<close> returns.
\<close>

definition toggleProfiler :: "env \<Rightarrow> state \<Rightarrow> bool \<times> state" where
  "toggleProfiler e s =
     (if \<not> isCpuProfilerRunning s \<and> \<not> isHeapProfilerRunning s
      then if CpuStartThrows \<in> throws e then (False, s)
           else let s1 = emit (CpuStart (sourceMapper s)) s
                in if HeapStartThrows \<in> throws e then (False, s1)
                   else (True, (emit (HeapStart (512 * 1024) 64) s1)
                                 \<lparr>isCpuProfilerRunning := True, isHeapProfilerRunning := True\<rparr>)
      else (True, snd (stopProfilerAndSave False e s)))"


subsection \<open>The awaited rendering: \<open>stopProfilerAndSave\<close> in stages\<close>

text \<open>
  With \<open>generateHtml\<close> the function awaits the flamegraph and then the markdown renderer
  after each written profile. At an \<open>await\<close> the function is suspended and other handlers
  run before it goes on. \<open>suspended\<close> is what the suspended function keeps: the local
  constant \<open>timestamp\<close> and the local array \<open>filenames\<close>.
\<close>

datatype suspended =
    AwaitCpuFlamegraph string "string list"
  | AwaitCpuMarkdown string "string list"
  | AwaitHeapFlamegraph string "string list"
  | AwaitHeapMarkdown "string list"

datatype progress = Finished "string list option" | Suspended suspended

definition caught :: "state \<Rightarrow> progress \<times> state" where
  "caught s =
     (Finished None, s\<lparr>isCpuProfilerRunning := False, isHeapProfilerRunning := False\<rparr>)"

definition heap_stage :: "bool \<Rightarrow> env \<Rightarrow> string \<Rightarrow> string list \<Rightarrow> state \<Rightarrow> progress \<times> state" where
  "heap_stage generateHtml e ts filenames s =
     (if isHeapProfilerRunning s
      then (case heap_save e ts filenames s of
              Inl s' \<Rightarrow> caught s'
            | Inr (filenames', s1) \<Rightarrow>
                if generateHtml
                then (Suspended (AwaitHeapFlamegraph ts filenames'),
                      emit (flamegraph_call (heapFilename ts)) s1)
                else (Finished (Some filenames'), s1))
      else (Finished (Some filenames), s))"

definition begin_stopProfilerAndSave :: "bool \<Rightarrow> env \<Rightarrow> state \<Rightarrow> progress \<times> state" where
  "begin_stopProfilerAndSave generateHtml e s0 =
     (let s = emit (StopAndSaveCalled generateHtml) s0
      in if \<not> isCpuProfilerRunning s \<and> \<not> isHeapProfilerRunning s then (Finished None, s)
         else let ts = timestamp e
              in if isCpuProfilerRunning s
                 then (case cpu_save e ts [] s of
                         Inl s' \<Rightarrow> caught s'
                       | Inr (filenames, s1) \<Rightarrow>
                           if generateHtml
                           then (Suspended (AwaitCpuFlamegraph ts filenames),
                                 emit (flamegraph_call (cpuFilename ts)) s1)
                           else heap_stage generateHtml e ts filenames s1)
                 else heap_stage generateHtml e ts [] s)"

definition resume_stopProfilerAndSave :: "suspended \<Rightarrow> env \<Rightarrow> state \<Rightarrow> progress \<times> state" where
  "resume_stopProfilerAndSave k e s =
     (case k of
        AwaitCpuFlamegraph ts filenames \<Rightarrow>
          (Suspended (AwaitCpuMarkdown ts filenames), emit (markdown_call (cpuFilename ts) s) s)
      | AwaitCpuMarkdown ts filenames \<Rightarrow> heap_stage True e ts filenames s
      | AwaitHeapFlamegraph ts filenames \<Rightarrow>
          (Suspended (AwaitHeapMarkdown filenames), emit (markdown_call (heapFilename ts) s) s)
      | AwaitHeapMarkdown filenames \<Rightarrow> (Finished (Some filenames), s))"

fun run_on :: "nat \<Rightarrow> env \<Rightarrow> progress \<times> state \<Rightarrow> string list option \<times> state" where
  \<comment> \<open>resumes at once, with nothing in between, until the function returns\<close>
  "run_on n e (Finished r, s) = (r, s)"
| "run_on 0 e (Suspended k, s) = (None, s)"
| "run_on (Suc n) e (Suspended k, s) = run_on n e (resume_stopProfilerAndSave k e s)"

subsection \<open>The exit handlers under auto-start\<close>

text \<open>
  The process: the controller state, the suspended \<open>stopProfilerAndSave(true)\<close> calls
  (each with whether \<open>originalExit\<close> follows its completion, as in the patched
  \<open>process.exit\<close>), and whether \<open>originalExit\<close> has ended the process.
\<close>

record process =
  st :: state
  pending :: "(suspended \<times> bool) list"
  exited :: bool

datatype event = BeforeExit | ExitCall | SIGINT | SIGTERM | SIGUSR2 | Resume

definition guard :: "state \<Rightarrow> bool" where
  "guard s = ((isCpuProfilerRunning s \<or> isHeapProfilerRunning s) \<and> \<not> exitHandlerCalled s)"

definition originalExit :: "process \<Rightarrow> process" where
  "originalExit p = p\<lparr>st := emit OriginalExit (st p), exited := True\<rparr>"

definition settle :: "bool \<Rightarrow> progress \<times> state \<Rightarrow> process \<Rightarrow> process" where
  \<comment> \<open>what follows a step of an awaited \<open>stopProfilerAndSave(true)\<close>\<close>
  "settle thenExit r p =
     (case r of
        (Finished _, s) \<Rightarrow> if thenExit then originalExit (p\<lparr>st := s\<rparr>) else p\<lparr>st := s\<rparr>
      | (Suspended k, s) \<Rightarrow> p\<lparr>st := s, pending := pending p @ [(k, thenExit)]\<rparr>)"

definition on_beforeExit :: "env \<Rightarrow> process \<Rightarrow> process" where
  "on_beforeExit e p =
     (if guard (st p)
      then settle False (begin_stopProfilerAndSave True e ((st p)\<lparr>exitHandlerCalled := True\<rparr>)) p
      else p)"

definition process_exit :: "env \<Rightarrow> process \<Rightarrow> process" where
  \<comment> \<open>the patched \<open>process.exit\<close>\<close>
  "process_exit e p =
     (if guard (st p)
      then settle True (begin_stopProfilerAndSave True e ((st p)\<lparr>exitHandlerCalled := True\<rparr>)) p
      else originalExit p)"

definition generateHtmlAsync :: "string list \<Rightarrow> state \<Rightarrow> state" where
  "generateHtmlAsync filenames s = foldl (\<lambda>s' f. render f s') s filenames"

definition quick_flush :: "env \<Rightarrow> process \<Rightarrow> process" where
  \<comment> \<open>the guarded block of the \<open>SIGINT\<close> and of the \<open>SIGTERM\<close> handler, which differ in the
      logged text only\<close>
  "quick_flush e p =
     (if guard (st p)
      then (case stopProfilerQuick e ((st p)\<lparr>exitHandlerCalled := True\<rparr>) of
              (Some filenames, s) \<Rightarrow> p\<lparr>st := generateHtmlAsync filenames s\<rparr>
            | (None, s) \<Rightarrow> p\<lparr>st := s\<rparr>)
      else p)"

definition on_signal :: "env \<Rightarrow> process \<Rightarrow> process" where
  \<comment> \<open>the block, then \<open>process.exit(0)\<close>, which is the patched function\<close>
  "on_signal e p = process_exit e (quick_flush e p)"

definition on_resume :: "env \<Rightarrow> process \<Rightarrow> process" where
  "on_resume e p =
     (case pending p of
        [] \<Rightarrow> p
      | (k, thenExit) # rest \<Rightarrow>
          settle thenExit (resume_stopProfilerAndSave k e (st p)) (p\<lparr>pending := rest\<rparr>))"

definition step :: "process \<Rightarrow> event \<times> env \<Rightarrow> process" where
  \<comment> \<open>one handler run to its end or to its next \<open>await\<close>; a process that has exited
      handles nothing; \<open>SIGUSR2\<close> runs \<open>toggleProfiler\<close>, and \<open>Resume\<close> continues the oldest
      suspended \<open>stopProfilerAndSave(true)\<close>\<close>
  "step p x =
     (if exited p then p
      else case x of
             (BeforeExit, e) \<Rightarrow> on_beforeExit e p
           | (ExitCall, e) \<Rightarrow> process_exit e p
           | (SIGINT, e) \<Rightarrow> on_signal e p
           | (SIGTERM, e) \<Rightarrow> on_signal e p
           | (SIGUSR2, e) \<Rightarrow> p\<lparr>st := snd (toggleProfiler e (st p))\<rparr>
           | (Resume, e) \<Rightarrow> on_resume e p)"

definition run :: "(event \<times> env) list \<Rightarrow> process \<Rightarrow> process" where
  "run xs p = foldl step p xs"

definition exit_stops :: "action list \<Rightarrow> nat" where
  \<comment> \<open>how often the exit handlers have run the stop sequence\<close>
  "exit_stops tr = length (filter (\<lambda>a. a = StopQuickCalled \<or> a = StopAndSaveCalled True) tr)"

definition written :: "action list \<Rightarrow> string list" where
  \<comment> \<open>the files written, in order\<close>
  "written tr = concat (map (\<lambda>a. case a of WriteFile f \<Rightarrow> [f] | _ \<Rightarrow> []) tr)"


subsection \<open>Sequences of manual toggles\<close>

definition toggles :: "env list \<Rightarrow> state \<Rightarrow> state" where
  \<comment> \<open>one \<open>toggleProfiler()\<close> call for each environment, in order\<close>
  "toggles es s = foldl (\<lambda>s' e. snd (toggleProfiler e s')) s es"

definition is_cpu_file :: "string \<Rightarrow> bool" where
  "is_cpu_file f = (take 12 f = ''cpu-profile-'')"

definition is_heap_file :: "string \<Rightarrow> bool" where
  "is_heap_file f = (take 13 f = ''heap-profile-'')"

definition cpu_files :: "action list \<Rightarrow> nat" where
  "cpu_files tr = length (filter is_cpu_file (written tr))"

definition heap_files :: "action list \<Rightarrow> nat" where
  "heap_files tr = length (filter is_heap_file (written tr))"

definition stop_events :: "action list \<Rightarrow> nat" where
  \<comment> \<open>the toggles that took the stopping branch\<close>
  "stop_events tr = length (filter (\<lambda>a. a = StopAndSaveCalled False) tr)"

definition start_events :: "action list \<Rightarrow> nat" where
  \<comment> \<open>the toggles that started both samplers; the heap sampler is started last\<close>
  "start_events tr = length (filter (\<lambda>a. case a of HeapStart _ _ \<Rightarrow> True | _ \<Rightarrow> False) tr)"

definition is_start_or_render :: "action \<Rightarrow> bool" where
  "is_start_or_render a =
     (case a of
        CpuStart _ \<Rightarrow> True
      | HeapStart _ _ \<Rightarrow> True
      | GenerateFlamegraph _ _ \<Rightarrow> True
      | GenerateMarkdown _ _ _ \<Rightarrow> True
      | _ \<Rightarrow> False)"

subsection \<open>Auto-start during preload\<close>

text \<open>
  The part of the preload script under \<open>if (autoStart)\<close> that starts profiling. The
  script runs synchronously; what it schedules runs later, after the target program's
  module code, so the state when \<open>preload\<close> returns is the state in which the first line
  of the target program runs. \<open>sourceMapperPromise\<close> is set when sourcemap directories or
  packages are configured, and is then still pending: \<open>startProfiling\<close> awaits it and
  calls \<open>toggleProfiler\<close> in the continuation.
\<close>

record config =
  FLAME_AUTO_START :: "string option"
  FLAME_DELAY :: "string option"
  FLAME_MD_FORMAT :: "string option"
  sourceMapperPromise :: bool

datatype callback = StartProfiling | AfterSourceMapper | SetTimeout0

datatype task = Await callback | SetImmediate callback | SetTimeout nat callback

definition or_default :: "string option \<Rightarrow> string \<Rightarrow> string" where
  \<comment> \<open>\<open>process.env.X || d\<close>: an unset and an empty variable are falsy\<close>
  "or_default v d = (case v of None \<Rightarrow> d | Some x \<Rightarrow> if x = [] then d else x)"

definition initial :: "config \<Rightarrow> state" where
  "initial cfg =
     \<lparr>isCpuProfilerRunning = False, isHeapProfilerRunning = False, sourceMapper = None,
      mdFormat = or_default (FLAME_MD_FORMAT cfg) ''summary'', exitHandlerCalled = False,
      trace = []\<rparr>"

definition digit_val :: "char \<Rightarrow> nat option" where
  "digit_val c =
     (let n = (of_char c :: nat) in if 48 \<le> n \<and> n \<le> 57 then Some (n - 48) else None)"

definition parseInt :: "string \<Rightarrow> int option" where
  \<comment> \<open>\<open>parseInt(s, 10)\<close>: leading white space, a sign, then the longest run of digits;
      \<open>None\<close> is \<open>NaN\<close>\<close>
  "parseInt s =
     (let t = dropWhile is_space s;
          (neg, u) = (case t of
                        [] \<Rightarrow> (False, [])
                      | c # cs \<Rightarrow> if c = CHR ''-'' then (True, cs)
                                  else if c = CHR ''+'' then (False, cs) else (False, t));
          ds = takeWhile (\<lambda>c. digit_val c \<noteq> None) u;
          n = foldl (\<lambda>acc c. 10 * acc + int (the (digit_val c))) 0 ds
      in if ds = [] then None else Some (if neg then - n else n))"

definition startProfiling :: "config \<Rightarrow> env \<Rightarrow> state \<Rightarrow> task list \<times> state" where
  "startProfiling cfg e s =
     (if sourceMapperPromise cfg then ([Await AfterSourceMapper], s)
      else ([], snd (toggleProfiler e s)))"

definition run_callback :: "callback \<Rightarrow> config \<Rightarrow> env \<Rightarrow> state \<Rightarrow> task list \<times> state" where
  "run_callback cb cfg e s =
     (case cb of
        StartProfiling \<Rightarrow> startProfiling cfg e s
      | AfterSourceMapper \<Rightarrow> ([], snd (toggleProfiler e s))
      | SetTimeout0 \<Rightarrow> ([SetTimeout 0 StartProfiling], s))"

definition preload :: "config \<Rightarrow> env \<Rightarrow> task list \<times> state" where
  "preload cfg e =
     (let s = initial cfg
      in if FLAME_AUTO_START cfg = Some ''true''
         then let delayValue = or_default (FLAME_DELAY cfg) ''until-started''
              in if delayValue = ''none'' then startProfiling cfg e s
                 else if delayValue = ''until-started'' then ([SetImmediate SetTimeout0], s)
                 else (case parseInt delayValue of
                         None \<Rightarrow> startProfiling cfg e s
                       | Some delayMs \<Rightarrow>
                           if delayMs \<ge> 0 then ([SetTimeout (nat delayMs) StartProfiling], s)
                           else startProfiling cfg e s)
         else ([], s))"

subsection \<open>Invariants\<close>

definition pairs_inv :: "state \<Rightarrow> bool" where
  \<comment> \<open>kept by every toggle, whatever throws\<close>
  "pairs_inv s =
     (isCpuProfilerRunning s = isHeapProfilerRunning s
      \<and> cpu_files (trace s) \<le> stop_events (trace s)
      \<and> heap_files (trace s) \<le> stop_events (trace s)
      \<and> start_events (trace s) = stop_events (trace s) + (if isCpuProfilerRunning s then 1 else 0))"

definition exact_inv :: "nat \<Rightarrow> state \<Rightarrow> bool" where
  \<comment> \<open>the state after \<open>n\<close> toggles in which nothing threw\<close>
  "exact_inv n s =
     (isCpuProfilerRunning s = odd n \<and> isHeapProfilerRunning s = odd n
      \<and> cpu_files (trace s) = n div 2 \<and> heap_files (trace s) = n div 2
      \<and> stop_events (trace s) = n div 2)"

definition latch_inv :: "state \<Rightarrow> bool" where
  \<comment> \<open>the exit handlers have run the stop sequence once if the latch is set, never if not\<close>
  "latch_inv s = (exit_stops (trace s) = (if exitHandlerCalled s then 1 else 0))"


section \<open>Sourcemap resolution\<close>

text \<open>
  The overridden \<open>mappingInfo\<close>. The sourcemap consumer, the mapper's \<open>getMappingInfo\<close> and
  Node's \<open>path\<close> functions are outside the repository and are parameters. A position
  lookup either throws or returns a position, whose \<open>source\<close> is \<open>null\<close> (\<open>None\<close>) when
  nothing maps; both lookups are called outside any \<open>try\<close>, so their exception leaves
  \<open>mappingInfo\<close>. \<open>sourceContentFor\<close> is called inside the only \<open>try\<close>, and its exception
  is caught. \<open>undefined\<close> and \<open>null\<close> are \<open>None\<close>. The cache of split source contents is
  module state and is passed through.
\<close>

datatype bias = GREATEST_LOWER_BOUND | LEAST_UPPER_BOUND

datatype 'a outcome = Throws | Returns 'a

record location =
  loc_file :: string
  line :: "nat option"
  column :: "nat option"
  name :: "string option"

record position =
  source :: "string option"
  orig_line :: "nat option"
  orig_column :: "nat option"
  orig_name :: "string option"

record consumer =
  originalPositionFor :: "nat option \<Rightarrow> nat \<Rightarrow> bias option \<Rightarrow> position outcome"
  sourceContentFor :: "string \<Rightarrow> string option outcome"

record entry =
  mapFileDir :: string
  mapConsumer :: consumer

record paths =
  path_normalize :: "string \<Rightarrow> string"
  path_resolve :: "string \<Rightarrow> string \<Rightarrow> string"

fun split_lines :: "string \<Rightarrow> string list" where
  \<comment> \<open>\<open>content.split('\n')\<close>\<close>
  "split_lines [] = [[]]"
| "split_lines (c # cs) =
     (if c = CHR 0x0A then [] # split_lines cs
      else (case split_lines cs of l # ls \<Rightarrow> (c # l) # ls | [] \<Rightarrow> [[c]]))"

definition truthy :: "string option \<Rightarrow> bool" where
  "truthy v = (case v of None \<Rightarrow> False | Some x \<Rightarrow> x \<noteq> [])"

definition nth_line :: "string list \<Rightarrow> nat \<Rightarrow> string option" where
  \<comment> \<open>\<open>lines[i]\<close>, \<open>undefined\<close> out of range\<close>
  "nth_line ls i = (if i < length ls then Some (ls ! i) else None)"

definition recover_name ::
  "consumer \<Rightarrow> (string \<rightharpoonup> string list) \<Rightarrow> string \<Rightarrow> nat \<Rightarrow> string option
     \<Rightarrow> string option \<times> (string \<rightharpoonup> string list)" where
  \<comment> \<open>the body of the \<open>try\<close>, with its \<open>catch\<close>: the name kept so far when nothing is found
      or the content lookup throws\<close>
  "recover_name c cache src ln resolvedName =
     (case (case cache src of
              Some ls \<Rightarrow> Returns (Some ls, cache)
            | None \<Rightarrow>
                (case sourceContentFor c src of
                   Throws \<Rightarrow> Throws
                 | Returns content \<Rightarrow>
                     if truthy content
                     then Returns (Some (split_lines (the content)),
                                   cache(src \<mapsto> split_lines (the content)))
                     else Returns (None, cache))) of
        Throws \<Rightarrow> (resolvedName, cache)
      | Returns (None, cache') \<Rightarrow> (resolvedName, cache')
      | Returns (Some ls, cache') \<Rightarrow>
          (case nth_line ls (ln - 1) of
             None \<Rightarrow> (resolvedName, cache')
           | Some l \<Rightarrow>
               if l = [] then (resolvedName, cache')
               else (case extractFunctionName l of
                       None \<Rightarrow> (resolvedName, cache')
                     | Some extractedName \<Rightarrow> (Some extractedName, cache'))))"

definition resolved ::
  "paths \<Rightarrow> entry \<Rightarrow> position \<Rightarrow> string option \<Rightarrow> location" where
  \<comment> \<open>the object returned for a position that has a source\<close>
  "resolved ps en pos resolvedName =
     \<lparr>loc_file = path_resolve ps (mapFileDir en) (the (source pos)),
      line = (case orig_line pos of None \<Rightarrow> None | Some l \<Rightarrow> if l = 0 then None else Some l),
      column = map_option Suc (orig_column pos),
      name = resolvedName\<rparr>"

definition from_position ::
  "paths \<Rightarrow> entry \<Rightarrow> (string \<rightharpoonup> string list) \<Rightarrow> location \<Rightarrow> position
     \<Rightarrow> location \<times> (string \<rightharpoonup> string list)" where
  \<comment> \<open>what follows the lookups: the input location when the position has no source,
      else the resolved location, with the name recovered where the position has none\<close>
  "from_position ps en cache loc pos =
     (if source pos = None then (loc, cache)
      else let resolvedName = (if truthy (orig_name pos) then orig_name pos else name loc)
           in if \<not> truthy (orig_name pos) \<and> truthy (source pos)
                 \<and> orig_line pos \<noteq> None \<and> orig_line pos \<noteq> Some 0
              then (case recover_name (mapConsumer en) cache (the (source pos))
                           (the (orig_line pos)) resolvedName of
                      (n, cache') \<Rightarrow> (resolved ps en pos n, cache'))
              else (resolved ps en pos resolvedName, cache))"

definition mappingInfo ::
  "paths \<Rightarrow> (string \<Rightarrow> entry option) \<Rightarrow> (string \<rightharpoonup> string list) \<Rightarrow> location
     \<Rightarrow> (location \<times> (string \<rightharpoonup> string list)) outcome" where
  \<comment> \<open>\<open>Throws\<close> when one of the two position lookups throws\<close>
  "mappingInfo ps getMappingInfo cache loc =
     (case getMappingInfo (path_normalize ps (loc_file loc)) of
        None \<Rightarrow> Returns (loc, cache)
      | Some en \<Rightarrow>
          let gcol = (case column loc of None \<Rightarrow> 0 | Some c \<Rightarrow> if c > 0 then c - 1 else 0);
              c = mapConsumer en
          in case originalPositionFor c (line loc) gcol None of
               Throws \<Rightarrow> Throws
             | Returns pos0 \<Rightarrow>
                 (case (if source pos0 = None
                        then originalPositionFor c (line loc) gcol (Some LEAST_UPPER_BOUND)
                        else Returns pos0) of
                    Throws \<Rightarrow> Throws
                  | Returns pos \<Rightarrow> Returns (from_position ps en cache loc pos)))"

section \<open>Loading a profile\<close>

text \<open>
  \<open>parseProfile\<close> of the library. The file system is a map from paths to contents;
  \<open>zlib.gunzipSync\<close> and \<open>Profile.decode\<close> are outside the repository and are
  parameters, each returning a value or the error it throws.
\<close>

datatype 'e load_error = ProfileNotFound string | Thrown 'e

definition isGzipped :: "8 word list \<Rightarrow> bool" where
  \<comment> \<open>\<open>data[0] === 0x1f && data[1] === 0x8b\<close>; a missing byte is \<open>undefined\<close>\<close>
  "isGzipped data = (case data of a # b # _ \<Rightarrow> a = 0x1f \<and> b = 0x8b | _ \<Rightarrow> False)"

definition parseProfile ::
  "(8 word list \<Rightarrow> 'e + 8 word list) \<Rightarrow> (8 word list \<Rightarrow> 'e + 'p) \<Rightarrow> (string \<rightharpoonup> 8 word list)
     \<Rightarrow> string \<Rightarrow> 'e load_error + 'p" where
  "parseProfile gunzipSync decode fs filePath =
     (case fs filePath of
        None \<Rightarrow> Inl (ProfileNotFound filePath)
      | Some data \<Rightarrow>
          (case (if isGzipped data then gunzipSync data else Inr data) of
             Inl err \<Rightarrow> Inl (Thrown err)
           | Inr data' \<Rightarrow>
               (case decode data' of Inl err \<Rightarrow> Inl (Thrown err) | Inr profile \<Rightarrow> Inr profile)))"


section \<open>Concrete inputs\<close>

text \<open>The inputs at which the theorems below are instantiated.\<close>

definition clock :: env where
  "clock = \<lparr>toISOString = ''2024-01-02T03:04:05.678Z'', throws = {}\<rparr>"

definition later_clock :: env where
  "later_clock = \<lparr>toISOString = ''2024-01-02T03:04:09.123Z'', throws = {}\<rparr>"

definition encode_fails :: env where
  "encode_fails = \<lparr>toISOString = ''2024-01-02T03:04:05.678Z'', throws = {CpuEncodeThrows}\<rparr>"

definition idle :: state where
  "idle =
     \<lparr>isCpuProfilerRunning = False, isHeapProfilerRunning = False, sourceMapper = None,
      mdFormat = ''summary'', exitHandlerCalled = False, trace = []\<rparr>"

definition profiling :: state where
  "profiling = idle\<lparr>isCpuProfilerRunning := True, isHeapProfilerRunning := True\<rparr>"

definition proc :: "state \<Rightarrow> process" where
  "proc s = \<lparr>st = s, pending = [], exited = False\<rparr>"

definition default_config :: config where
  \<comment> \<open>auto-start with the default delay \<open>until-started\<close>\<close>
  "default_config =
     \<lparr>FLAME_AUTO_START = Some ''true'', FLAME_DELAY = None, FLAME_MD_FORMAT = None,
      sourceMapperPromise = False\<rparr>"

definition none_config :: "bool \<Rightarrow> config" where
  "none_config maps =
     \<lparr>FLAME_AUTO_START = Some ''true'', FLAME_DELAY = Some ''none'', FLAME_MD_FORMAT = None,
      sourceMapperPromise = maps\<rparr>"






definition toy_gunzip :: "8 word list \<Rightarrow> unit + 8 word list" where
  \<comment> \<open>stands for a decompressor: the payload follows the two magic bytes\<close>
  "toy_gunzip d = (if isGzipped d then Inr (drop 2 d) else Inl ())"

definition toy_decode :: "8 word list \<Rightarrow> unit + nat" where
  "toy_decode d = (if d = [] then Inl () else Inr (length d))"

section \<open>Properties of name extraction\<close>

lemma ident_start_not_space: "is_ident_start c \<Longrightarrow> \<not> is_space c"
  by (auto simp: is_ident_start_def is_space_def Let_def)

lemma space_not_ident_char: "is_space c \<Longrightarrow> \<not> is_ident_char c"
  by (auto simp: is_ident_char_def is_ident_start_def is_space_def Let_def)

lemma paren_class: "\<not> is_space CHR ''(''" "\<not> is_ident_char CHR ''(''"
  by (simp_all add: is_ident_char_def is_ident_start_def is_space_def)

lemma func_at_space: "is_space c \<Longrightarrow> func_at (c # s) = None"
  by (auto simp: func_at_def func_rest_def lit_def is_space_def split: option.splits)

lemma search_func_at_spaces:
  "\<forall>c \<in> set ws. is_space c \<Longrightarrow> s \<noteq> [] \<Longrightarrow> search func_at (ws @ s) = search func_at s"
  by (induction ws) (simp_all add: func_at_space)

lemma drop_spaces_then:
  "\<forall>c \<in> set sp. is_space c \<Longrightarrow> \<not> is_space c \<Longrightarrow> dropWhile is_space (sp @ c # r) = c # r"
  by (induction sp) simp_all

lemma take_ident_then:
  "\<forall>x \<in> set cs. is_ident_char x \<Longrightarrow> \<not> is_ident_char c \<Longrightarrow>
   takeWhile is_ident_char (cs @ c # r) = cs \<and> dropWhile is_ident_char (cs @ c # r) = c # r"
  by (induction cs) simp_all

lemma name_paren_named:
  assumes "is_ident_start c" and "\<forall>x \<in> set cs. is_ident_char x" and "\<forall>x \<in> set sp. is_space x"
  shows "name_paren ((c # cs) @ sp @ ''('' @ r) = Some (c # cs)"
proof (cases sp)
  case Nil
  then show ?thesis
    using assms take_ident_then [of cs "CHR ''(''" r]
    by (simp add: name_paren_def ident_def lit_def paren_class)
next
  case (Cons a sp')
  then have a: "\<not> is_ident_char a" and sp': "\<forall>x \<in> set sp'. is_space x" and "is_space a"
    using assms(3) by (simp_all add: space_not_ident_char)
  then have "dropWhile is_space (a # sp' @ CHR ''('' # r) = CHR ''('' # r"
    using drop_spaces_then [of sp' "CHR ''(''" r] by (simp add: paren_class)
  then show ?thesis
    using assms Cons a take_ident_then [of cs a "sp' @ ''('' @ r"]
    by (simp add: name_paren_def ident_def lit_def)
qed

text \<open>
  A line that is a named function definition: optional indentation, the keyword
  \<open>function\<close>, white space, an identifier, optional white space and an opening
  parenthesis. The function returns the identifier.
\<close>

lemma extractFunctionName_named_function:
  assumes "\<forall>x \<in> set ws. is_space x"
    and "sp \<noteq> []" and "\<forall>x \<in> set sp. is_space x"
    and "is_ident_start c" and "\<forall>x \<in> set cs. is_ident_char x"
    and "\<forall>x \<in> set sp'. is_space x"
  shows "extractFunctionName (ws @ ''function'' @ sp @ (c # cs) @ sp' @ ''('' @ r) = Some (c # cs)"
proof -
  obtain a sp0 where sp: "sp = a # sp0"
    using assms(2) by (cases sp) auto
  then have "is_space a" and "\<forall>x \<in> set sp0. is_space x"
    using assms(3) by simp_all
  then have "spaces1 (sp @ (c # cs) @ sp' @ ''('' @ r) = Some ((c # cs) @ sp' @ ''('' @ r)"
    using drop_spaces_then [of sp0 c "cs @ sp' @ ''('' @ r"] ident_start_not_space [OF assms(4)]
    by (simp add: spaces1_def sp)
  then have "func_at (''function'' @ sp @ (c # cs) @ sp' @ ''('' @ r) = Some (c # cs)"
    using name_paren_named [OF assms(4,5,6), of r]
    by (simp add: func_at_def func_rest_def lit_def)
  then have "search func_at (ws @ ''function'' @ sp @ (c # cs) @ sp' @ ''('' @ r) = Some (c # cs)"
    using search_func_at_spaces [OF assms(1), of "''function'' @ sp @ (c # cs) @ sp' @ ''('' @ r"]
    by simp
  then show ?thesis
    by (simp add: extractFunctionName_def)
qed

text \<open>
  C7. On the named function definition \<open>function foo(a, b) {\<close> the function returns
  \<open>foo\<close>. On the control-flow statement \<open>if (x) {\<close> it returns the name \<open>if\<close>: the first
  two expressions do not match, and the method-shorthand expression matches the keyword
  followed by a parenthesis; no keyword is excluded.
\<close>

theorem extractFunctionName_examples:
  "extractFunctionName ''function foo(a, b) {'' = Some ''foo''
   \<and> extractFunctionName ''if (x) {'' = Some ''if''"
  by code_simp

section \<open>Properties of the controller\<close>

lemmas ctl_defs =
  markdown_call_def flamegraph_call_def toggleProfiler_def emit_def stopProfilerAndSave_def
  stopProfilerQuick_def cpu_save_def heap_save_def catch_reset_def render_def

lemmas stage_defs =
  begin_stopProfilerAndSave_def resume_stopProfilerAndSave_def heap_stage_def caught_def

lemmas input_defs = clock_def later_clock_def encode_fails_def idle_def profiling_def proc_def

lemma written_simps [simp]:
  "written [] = []"
  "written (a # tr) = (case a of WriteFile f \<Rightarrow> [f] | _ \<Rightarrow> []) @ written tr"
  "written (tr @ tr') = written tr @ written tr'"
  by (simp_all add: written_def)

lemma exit_stops_simps [simp]:
  "exit_stops [] = 0"
  "exit_stops (a # tr) =
     (if a = StopQuickCalled \<or> a = StopAndSaveCalled True then 1 else 0) + exit_stops tr"
  "exit_stops (tr @ tr') = exit_stops tr + exit_stops tr'"
  by (simp_all add: exit_stops_def)

lemma kind_simps [simp]:
  "is_cpu_file (cpuFilename ts)" "\<not> is_cpu_file (heapFilename ts)"
  "is_heap_file (heapFilename ts)" "\<not> is_heap_file (cpuFilename ts)"
  by (simp_all add: is_cpu_file_def is_heap_file_def cpuFilename_def heapFilename_def)

lemma count_simps [simp]:
  "cpu_files [] = 0" "cpu_files (tr @ tr') = cpu_files tr + cpu_files tr'"
  "cpu_files (a # tr) =
     (case a of WriteFile f \<Rightarrow> if is_cpu_file f then 1 else 0 | _ \<Rightarrow> 0) + cpu_files tr"
  "heap_files [] = 0" "heap_files (tr @ tr') = heap_files tr + heap_files tr'"
  "heap_files (a # tr) =
     (case a of WriteFile f \<Rightarrow> if is_heap_file f then 1 else 0 | _ \<Rightarrow> 0) + heap_files tr"
  "stop_events [] = 0" "stop_events (tr @ tr') = stop_events tr + stop_events tr'"
  "stop_events (a # tr) = (if a = StopAndSaveCalled False then 1 else 0) + stop_events tr"
  "start_events [] = 0" "start_events (tr @ tr') = start_events tr + start_events tr'"
  "start_events (a # tr) = (case a of HeapStart _ _ \<Rightarrow> 1 | _ \<Rightarrow> 0) + start_events tr"
  by (simp_all add: cpu_files_def heap_files_def stop_events_def start_events_def
        split: action.splits)

text \<open>
  The staged function, resumed at once at each \<open>await\<close>, is the function run from call
  to return.
\<close>

lemma run_on_begin:
  "run_on 4 e (begin_stopProfilerAndSave g e s) = stopProfilerAndSave g e s"
  by (auto simp: ctl_defs stage_defs Let_def numeral_eq_Suc split: sum.splits prod.splits)

subsection \<open>A failure of the CPU profile\<close>

text \<open>
  C1, as the claim states it, fails: with both samplers running and the encoding of
  the CPU profile throwing, \<open>stopProfilerAndSave\<close> returns \<open>null\<close>, and the trace holds
  neither a call that stops the heap sampler nor a written file.
\<close>

theorem cpu_failure_counterexample:
  "stopProfilerAndSave False encode_fails profiling
     = (None, idle\<lparr>trace := [StopAndSaveCalled False, CpuStop]\<rparr>)"
  by (simp add: ctl_defs input_defs Let_def)

text \<open>
  C1, amended. One \<open>try\<close>/\<open>catch\<close> encloses both samplers: when both are running and
  encoding or writing the CPU profile throws, the function returns \<open>null\<close>, both
  running flags are cleared, and after stopping the CPU sampler nothing more is called:
  the heap sampler is not stopped and no file is written.
\<close>

theorem cpu_failure_aborts_stop:
  assumes "isCpuProfilerRunning s" and "isHeapProfilerRunning s"
    and "CpuStopThrows \<notin> throws e"
    and "CpuEncodeThrows \<in> throws e \<or> CpuWriteThrows \<in> throws e"
  shows "stopProfilerAndSave g e s =
           (None, s\<lparr>isCpuProfilerRunning := False, isHeapProfilerRunning := False,
                    trace := trace s @ [StopAndSaveCalled g, CpuStop]\<rparr>)"
  using assms by (auto simp: ctl_defs Let_def)

theorem cpu_failure_aborts_stop_witness:
  "isCpuProfilerRunning profiling \<and> isHeapProfilerRunning profiling
   \<and> CpuStopThrows \<notin> throws encode_fails \<and> CpuEncodeThrows \<in> throws encode_fails
   \<and> fst (stopProfilerAndSave True encode_fails profiling) = None
   \<and> written (trace (snd (stopProfilerAndSave True encode_fails profiling))) = []"
proof -
  have h: "isCpuProfilerRunning profiling" "isHeapProfilerRunning profiling"
    "CpuStopThrows \<notin> throws encode_fails"
    "CpuEncodeThrows \<in> throws encode_fails \<or> CpuWriteThrows \<in> throws encode_fails"
    by (simp_all add: input_defs)
  show ?thesis
    using h cpu_failure_aborts_stop [OF h, of True] by (simp add: input_defs)
qed

subsection \<open>One timestamp for one stop\<close>

text \<open>
  C3. When one call of \<open>stopProfilerQuick\<close> or of \<open>stopProfilerAndSave\<close> writes two
  files, the first is the CPU profile and the second the heap profile, and both names
  embed the one timestamp string computed from the clock at that call.
\<close>

theorem one_timestamp_per_stop:
  assumes "s' = snd (stopProfilerQuick e s) \<or> s' = snd (stopProfilerAndSave g e s)"
    and "written (trace s') = written (trace s) @ [f1, f2]"
  shows "f1 = ''cpu-profile-'' @ timestamp e @ ''.pb''
         \<and> f2 = ''heap-profile-'' @ timestamp e @ ''.pb''"
  using assms
  by (auto simp: ctl_defs Let_def cpuFilename_def heapFilename_def
        split: if_splits sum.splits prod.splits)

theorem one_timestamp_per_stop_witness:
  "written (trace (snd (stopProfilerAndSave True clock profiling)))
     = written (trace profiling)
       @ [''cpu-profile-2024-01-02T03-04-05-678Z.pb'', ''heap-profile-2024-01-02T03-04-05-678Z.pb'']
   \<and> ''cpu-profile-2024-01-02T03-04-05-678Z.pb'' = ''cpu-profile-'' @ timestamp clock @ ''.pb''
   \<and> ''heap-profile-2024-01-02T03-04-05-678Z.pb'' = ''heap-profile-'' @ timestamp clock @ ''.pb''"
proof -
  have h: "written (trace (snd (stopProfilerAndSave True clock profiling)))
     = written (trace profiling)
       @ [''cpu-profile-2024-01-02T03-04-05-678Z.pb'', ''heap-profile-2024-01-02T03-04-05-678Z.pb'']"
    by (simp add: ctl_defs input_defs Let_def cpuFilename_def heapFilename_def timestamp_def)
  show ?thesis
    using h one_timestamp_per_stop [OF disjI2 [OF refl] h] by simp
qed

text \<open>
  The same holds when other handlers run at the \<open>await\<close>s of \<open>stopProfilerAndSave(true)\<close>:
  the suspended function keeps its timestamp, and the heap profile it writes after it
  is resumed, in whatever state and at whatever time, is named with it.
\<close>

lemma suspended_keeps_timestamp:
  assumes "begin_stopProfilerAndSave True e s = (Suspended k, s1)"
    and "isCpuProfilerRunning s"
  shows "k = AwaitCpuFlamegraph (timestamp e) [cpuFilename (timestamp e)]"
    and "resume_stopProfilerAndSave k e1 s2
           = (Suspended (AwaitCpuMarkdown (timestamp e) [cpuFilename (timestamp e)]), s3)
         \<Longrightarrow> written (trace (snd (resume_stopProfilerAndSave
                 (AwaitCpuMarkdown (timestamp e) [cpuFilename (timestamp e)]) e2 s4)))
               = written (trace s4) @ [f]
         \<Longrightarrow> f = heapFilename (timestamp e)"
  using assms
  by (auto simp: ctl_defs stage_defs Let_def split: if_splits sum.splits prod.splits)

subsection \<open>The branches of \<open>toggleProfiler\<close>\<close>

text \<open>
  C5. With neither flag set and both \<open>start\<close> calls returning, \<open>toggleProfiler\<close> starts
  the CPU sampler with the sourcemapper when there is one, then the heap sampler with
  an interval of \<open>512 * 1024\<close> bytes and a stack depth of 64, and sets both flags. With
  either flag set it runs \<open>stopProfilerAndSave(false)\<close>: nothing is started, no renderer
  is called, and at most one more CPU file and one more heap file are written.
\<close>

theorem toggleProfiler_branches:
  "(\<not> isCpuProfilerRunning s \<and> \<not> isHeapProfilerRunning s
      \<and> CpuStartThrows \<notin> throws e \<and> HeapStartThrows \<notin> throws e \<longrightarrow>
      toggleProfiler e s =
        (True, s\<lparr>isCpuProfilerRunning := True, isHeapProfilerRunning := True,
                 trace := trace s @ [CpuStart (sourceMapper s), HeapStart 524288 64]\<rparr>))
   \<and> (isCpuProfilerRunning s \<or> isHeapProfilerRunning s \<longrightarrow>
        toggleProfiler e s = (True, snd (stopProfilerAndSave False e s))
        \<and> (\<forall>a \<in> set (drop (length (trace s)) (trace (snd (toggleProfiler e s)))).
              \<not> is_start_or_render a)
        \<and> cpu_files (trace (snd (toggleProfiler e s))) \<le> cpu_files (trace s) + 1
        \<and> heap_files (trace (snd (toggleProfiler e s))) \<le> heap_files (trace s) + 1)"
  by (auto simp: ctl_defs is_start_or_render_def Let_def)

theorem toggleProfiler_branches_witness:
  "toggleProfiler clock idle =
     (True, profiling\<lparr>trace := [CpuStart None, HeapStart 524288 64]\<rparr>)
   \<and> toggleProfiler later_clock profiling = (True, snd (stopProfilerAndSave False later_clock profiling))
   \<and> trace (snd (toggleProfiler later_clock profiling))
       = [StopAndSaveCalled False, CpuStop, WriteFile ''cpu-profile-2024-01-02T03-04-09-123Z.pb'',
          HeapProfile None, HeapStop, WriteFile ''heap-profile-2024-01-02T03-04-09-123Z.pb'']
   \<and> filter is_start_or_render
         (drop (length (trace profiling)) (trace (snd (toggleProfiler later_clock profiling)))) = []"
  using toggleProfiler_branches [of idle clock] toggleProfiler_branches [of profiling later_clock]
  by (simp add: input_defs ctl_defs Let_def cpuFilename_def heapFilename_def timestamp_def
        is_start_or_render_def)

subsection \<open>The two flags after an operation\<close>

text \<open>
  C10, as the claim states it, fails. Under auto-start, with both samplers running,
  \<open>beforeExit\<close> begins \<open>stopProfilerAndSave(true)\<close>, which writes the CPU profile, clears
  the CPU flag and awaits the flamegraph. Two \<open>SIGUSR2\<close> arrive meanwhile: the first
  stops and saves the heap sampler, the second starts both samplers. The resumed
  function finds the heap flag set, writes the heap profile and clears the heap flag.
  When it has returned, the CPU flag is set and the heap flag is not.
\<close>

theorem flags_differ_counterexample:
  "pending (run [(BeforeExit, clock), (SIGUSR2, later_clock), (SIGUSR2, later_clock),
                 (Resume, clock), (Resume, clock), (Resume, clock), (Resume, clock)]
              (proc profiling)) = []
   \<and> isCpuProfilerRunning
        (st (run [(BeforeExit, clock), (SIGUSR2, later_clock), (SIGUSR2, later_clock),
                  (Resume, clock), (Resume, clock), (Resume, clock), (Resume, clock)]
               (proc profiling)))
   \<and> \<not> isHeapProfilerRunning
        (st (run [(BeforeExit, clock), (SIGUSR2, later_clock), (SIGUSR2, later_clock),
                  (Resume, clock), (Resume, clock), (Resume, clock), (Resume, clock)]
               (proc profiling)))"
  by (simp add: run_def step_def input_defs on_beforeExit_def on_resume_def guard_def settle_def
        ctl_defs stage_defs Let_def)

text \<open>
  C10, amended. After \<open>toggleProfiler\<close>, after \<open>stopProfilerQuick\<close>, and after a
  \<open>stopProfilerAndSave\<close> that runs from its call to its return with no other handler
  in between (every \<open>stopProfilerAndSave(false)\<close>, which has no \<open>await\<close>), the two flags
  are equal, from any state and whatever throws.
\<close>

theorem flags_move_together:
  "isCpuProfilerRunning (snd (toggleProfiler e s)) = isHeapProfilerRunning (snd (toggleProfiler e s))
   \<and> isCpuProfilerRunning (snd (stopProfilerQuick e s))
       = isHeapProfilerRunning (snd (stopProfilerQuick e s))
   \<and> isCpuProfilerRunning (snd (stopProfilerAndSave g e s))
       = isHeapProfilerRunning (snd (stopProfilerAndSave g e s))"
  by (auto simp: ctl_defs Let_def split: sum.splits prod.splits)

theorem flags_move_together_witness:
  "isCpuProfilerRunning (snd (toggleProfiler clock idle))
   \<and> isHeapProfilerRunning (snd (toggleProfiler clock idle))
   \<and> \<not> isCpuProfilerRunning (snd (stopProfilerQuick encode_fails profiling))
   \<and> \<not> isHeapProfilerRunning (snd (stopProfilerQuick encode_fails profiling))
   \<and> \<not> isCpuProfilerRunning (snd (stopProfilerAndSave True clock profiling))
   \<and> \<not> isHeapProfilerRunning (snd (stopProfilerAndSave True clock profiling))"
  using flags_move_together [of clock idle True] flags_move_together [of encode_fails profiling True]
    flags_move_together [of clock profiling True]
  by (simp add: input_defs ctl_defs Let_def)

subsection \<open>Files and toggles\<close>

lemma toggles_snoc: "toggles (es @ [e]) s = snd (toggleProfiler e (toggles es s))"
  by (simp add: toggles_def)

lemma toggle_pairs_inv: "pairs_inv s \<Longrightarrow> pairs_inv (snd (toggleProfiler e s))"
  by (auto simp: pairs_inv_def ctl_defs Let_def)

lemma toggles_pairs_inv: "pairs_inv s \<Longrightarrow> pairs_inv (toggles es s)"
proof (induction es rule: rev_induct)
  case Nil
  then show ?case by (simp add: toggles_def)
next
  case (snoc e es)
  then show ?case by (simp add: toggles_snoc toggle_pairs_inv)
qed

lemma toggle_exact_inv:
  "exact_inv n s \<Longrightarrow> throws e = {} \<Longrightarrow> exact_inv (Suc n) (snd (toggleProfiler e s))"
  by (auto simp: exact_inv_def ctl_defs Let_def)

lemma toggles_exact_inv:
  "exact_inv 0 s \<Longrightarrow> \<forall>e \<in> set es. throws e = {} \<Longrightarrow> exact_inv (length es) (toggles es s)"
proof (induction es rule: rev_induct)
  case Nil
  then show ?case by (simp add: toggles_def)
next
  case (snoc e es)
  then show ?case by (simp add: toggles_snoc toggle_exact_inv)
qed

text \<open>
  C4. Start from the idle state with nothing written, and call \<open>toggleProfiler\<close> any
  number of times. Whatever throws, the CPU files written and the heap files written
  are each at most as many as the stops, and every stop follows its own start. When no
  call throws, the toggles alternate between starting and stopping, and after \<open>n\<close> of
  them each sampler has written exactly one file for each of the \<open>n div 2\<close> completed
  pairs.
\<close>

theorem files_match_pairs:
  assumes "\<not> isCpuProfilerRunning s" and "\<not> isHeapProfilerRunning s" and "trace s = []"
  shows "cpu_files (trace (toggles es s)) \<le> stop_events (trace (toggles es s))
         \<and> heap_files (trace (toggles es s)) \<le> stop_events (trace (toggles es s))
         \<and> stop_events (trace (toggles es s)) \<le> start_events (trace (toggles es s))
         \<and> ((\<forall>e \<in> set es. throws e = {}) \<longrightarrow>
              stop_events (trace (toggles es s)) = length es div 2
              \<and> cpu_files (trace (toggles es s)) = stop_events (trace (toggles es s))
              \<and> heap_files (trace (toggles es s)) = stop_events (trace (toggles es s)))"
proof -
  have "pairs_inv s" and "exact_inv 0 s"
    using assms by (simp_all add: pairs_inv_def exact_inv_def)
  then show ?thesis
    using toggles_pairs_inv [of s es] toggles_exact_inv [of s es]
    by (auto simp: pairs_inv_def exact_inv_def)
qed

theorem files_match_pairs_witness:
  "\<not> isCpuProfilerRunning idle \<and> \<not> isHeapProfilerRunning idle \<and> trace idle = []
   \<and> throws clock = {} \<and> throws later_clock = {}
   \<and> stop_events (trace (toggles [clock, later_clock, later_clock] idle)) = 1
   \<and> cpu_files (trace (toggles [clock, later_clock, later_clock] idle)) = 1
   \<and> heap_files (trace (toggles [clock, later_clock, later_clock] idle)) = 1"
proof -
  have h: "\<not> isCpuProfilerRunning idle" "\<not> isHeapProfilerRunning idle" "trace idle = []"
    by (simp_all add: idle_def)
  have n: "throws clock = {}" "throws later_clock = {}"
    by (simp_all add: input_defs)
  show ?thesis
    using h n files_match_pairs [OF h, of "[clock, later_clock, later_clock]"] by simp
qed

subsection \<open>The exit latch\<close>

lemma generateHtmlAsync_keeps:
  "exitHandlerCalled (generateHtmlAsync fs s) = exitHandlerCalled s"
  "exit_stops (trace (generateHtmlAsync fs s)) = exit_stops (trace s)"
  unfolding generateHtmlAsync_def
  by (induction fs arbitrary: s) (simp_all add: ctl_defs)

lemma toggle_keeps:
  "exitHandlerCalled (snd (toggleProfiler e s)) = exitHandlerCalled s"
  "exit_stops (trace (snd (toggleProfiler e s))) = exit_stops (trace s)"
  by (auto simp: ctl_defs Let_def split: sum.splits prod.splits)

lemma quick_counts:
  "exitHandlerCalled (snd (stopProfilerQuick e s)) = exitHandlerCalled s"
  "exit_stops (trace (snd (stopProfilerQuick e s))) = Suc (exit_stops (trace s))"
  by (auto simp: ctl_defs Let_def split: sum.splits prod.splits)

lemma begin_counts:
  "exitHandlerCalled (snd (begin_stopProfilerAndSave True e s)) = exitHandlerCalled s"
  "exit_stops (trace (snd (begin_stopProfilerAndSave True e s))) = Suc (exit_stops (trace s))"
  by (auto simp: ctl_defs stage_defs Let_def split: sum.splits prod.splits)

lemma resume_keeps:
  "exitHandlerCalled (snd (resume_stopProfilerAndSave k e s)) = exitHandlerCalled s"
  "exit_stops (trace (snd (resume_stopProfilerAndSave k e s))) = exit_stops (trace s)"
  by (auto simp: ctl_defs stage_defs Let_def split: sum.splits prod.splits suspended.splits)

lemma settle_st:
  "exitHandlerCalled (st (settle b r p)) = exitHandlerCalled (snd r)"
  "exit_stops (trace (st (settle b r p))) = exit_stops (trace (snd r))"
  by (auto simp: settle_def originalExit_def emit_def split: prod.splits progress.splits)

lemma on_beforeExit_latch:
  "exitHandlerCalled (st (on_beforeExit e p)) = (exitHandlerCalled (st p) \<or> guard (st p))"
  "latch_inv (st p) \<Longrightarrow> latch_inv (st (on_beforeExit e p))"
  by (auto simp: latch_inv_def on_beforeExit_def guard_def settle_st begin_counts)

lemma process_exit_latch:
  "exitHandlerCalled (st (process_exit e p)) = (exitHandlerCalled (st p) \<or> guard (st p))"
  "latch_inv (st p) \<Longrightarrow> latch_inv (st (process_exit e p))"
  by (auto simp: latch_inv_def process_exit_def guard_def settle_st begin_counts
        originalExit_def emit_def)

lemma quick_flush_latch:
  "exitHandlerCalled (st (quick_flush e p)) = (exitHandlerCalled (st p) \<or> guard (st p))"
  "latch_inv (st p) \<Longrightarrow> latch_inv (st (quick_flush e p))"
proof -
  obtain r s2 where q: "stopProfilerQuick e ((st p)\<lparr>exitHandlerCalled := True\<rparr>) = (r, s2)"
    by (cases "stopProfilerQuick e ((st p)\<lparr>exitHandlerCalled := True\<rparr>)")
  then have s2: "s2 = snd (stopProfilerQuick e ((st p)\<lparr>exitHandlerCalled := True\<rparr>))"
    by simp
  have l: "exitHandlerCalled s2" and c: "exit_stops (trace s2) = Suc (exit_stops (trace (st p)))"
    unfolding s2 by (simp_all add: quick_counts)
  show "exitHandlerCalled (st (quick_flush e p)) = (exitHandlerCalled (st p) \<or> guard (st p))"
    using q l by (cases r) (auto simp: quick_flush_def generateHtmlAsync_keeps guard_def)
  show "latch_inv (st (quick_flush e p))" if "latch_inv (st p)"
    using that q l c
    by (cases r) (auto simp: quick_flush_def latch_inv_def generateHtmlAsync_keeps guard_def)
qed

lemma on_signal_latch:
  "exitHandlerCalled (st (on_signal e p)) = (exitHandlerCalled (st p) \<or> guard (st p))"
  "latch_inv (st p) \<Longrightarrow> latch_inv (st (on_signal e p))"
proof -
  show "exitHandlerCalled (st (on_signal e p)) = (exitHandlerCalled (st p) \<or> guard (st p))"
  proof (cases "guard (st p)")
    case True
    then show ?thesis
      by (simp add: on_signal_def process_exit_latch(1) quick_flush_latch(1))
  next
    case False
    then have "quick_flush e p = p"
      by (simp add: quick_flush_def)
    then show ?thesis
      by (simp add: on_signal_def process_exit_latch(1))
  qed
  show "latch_inv (st (on_signal e p))" if "latch_inv (st p)"
    unfolding on_signal_def
    using that by (intro process_exit_latch(2) quick_flush_latch(2))
qed

lemma on_resume_latch:
  "exitHandlerCalled (st (on_resume e p)) = exitHandlerCalled (st p)"
  "latch_inv (st p) \<Longrightarrow> latch_inv (st (on_resume e p))"
  by (auto simp: latch_inv_def on_resume_def settle_st resume_keeps split: list.splits prod.splits)

lemma step_latch_inv: "latch_inv (st p) \<Longrightarrow> latch_inv (st (step p x))"
  by (cases x; cases "fst x")
     (simp_all add: step_def on_beforeExit_latch process_exit_latch on_signal_latch
        on_resume_latch, simp_all add: latch_inv_def toggle_keeps)

lemma step_latch_mono: "exitHandlerCalled (st p) \<Longrightarrow> exitHandlerCalled (st (step p x))"
  by (cases x; cases "fst x")
     (simp_all add: step_def on_beforeExit_latch process_exit_latch on_signal_latch
        on_resume_latch toggle_keeps)

lemma run_append: "run (xs @ ys) p = run ys (run xs p)"
  by (simp add: run_def)

lemma run_latch_inv: "latch_inv (st p) \<Longrightarrow> latch_inv (st (run xs p))"
  unfolding run_def by (induction xs arbitrary: p) (simp_all add: step_latch_inv)

lemma run_latch_mono: "exitHandlerCalled (st p) \<Longrightarrow> exitHandlerCalled (st (run xs p))"
  unfolding run_def by (induction xs arbitrary: p) (simp_all add: step_latch_mono)

lemma trigger_latch:
  assumes "t \<in> {BeforeExit, ExitCall, SIGINT, SIGTERM}" and "\<not> exited p"
  shows "exitHandlerCalled (st (step p (t, e))) = (exitHandlerCalled (st p) \<or> guard (st p))"
  using assms
  by (auto simp: step_def on_beforeExit_latch process_exit_latch on_signal_latch)

text \<open>
  C2, as the claim states it, fails. Under auto-start with the default delay the
  preload script leaves both samplers stopped until its timers have fired. A \<open>SIGINT\<close>
  that arrives before ends the process: its handler and the patched \<open>process.exit\<close>
  both skip the stop sequence, which has run zero times, and the latch is not set.
\<close>

theorem exit_latch_counterexample:
  "exited (run [(SIGINT, clock)] (proc (snd (preload default_config clock))))
   \<and> exit_stops (trace (st (run [(SIGINT, clock)] (proc (snd (preload default_config clock)))))) = 0
   \<and> \<not> exitHandlerCalled (st (run [(SIGINT, clock)] (proc (snd (preload default_config clock)))))"
  by (simp add: run_def step_def input_defs on_signal_def quick_flush_def process_exit_def
        guard_def originalExit_def emit_def preload_def default_config_def or_default_def
        initial_def)

text \<open>
  C2, amended. Under auto-start, over every interleaving of the four exit triggers,
  of manual toggles and of resumptions of the awaited stop, the exit handlers run the
  stop sequence at most once, and exactly once when the latch is set. A trigger that
  fires in a live process while a sampler is running and the latch is not set sets the
  latch and runs the stop sequence; from then on no trigger runs it again. A trigger
  that fires while no sampler is running runs nothing and leaves the latch as it was.
\<close>

theorem exit_latch_single_fire:
  assumes "\<not> exitHandlerCalled (st p)" and "exit_stops (trace (st p)) = 0"
  shows "exit_stops (trace (st (run xs p))) = (if exitHandlerCalled (st (run xs p)) then 1 else 0)
         \<and> (exitHandlerCalled (st (run xs p)) \<longrightarrow>
              exit_stops (trace (st (run (xs @ ys) p))) = 1)
         \<and> (t \<in> {BeforeExit, ExitCall, SIGINT, SIGTERM} \<and> \<not> exited p \<longrightarrow>
              (if isCpuProfilerRunning (st p) \<or> isHeapProfilerRunning (st p)
               then exitHandlerCalled (st (step p (t, e)))
                    \<and> exit_stops (trace (st (step p (t, e)))) = 1
               else \<not> exitHandlerCalled (st (step p (t, e)))
                    \<and> exit_stops (trace (st (step p (t, e)))) = 0))"
proof -
  have inv: "latch_inv (st p)"
    using assms by (simp add: latch_inv_def)
  have a: "exit_stops (trace (st (run xs p))) = (if exitHandlerCalled (st (run xs p)) then 1 else 0)"
    using run_latch_inv [OF inv, of xs] by (simp add: latch_inv_def)
  have b: "exit_stops (trace (st (run (xs @ ys) p))) = 1" if "exitHandlerCalled (st (run xs p))"
    using run_latch_inv [OF inv, of "xs @ ys"] run_latch_mono [OF that, of ys]
    by (simp add: latch_inv_def run_append)
  have c: "(if isCpuProfilerRunning (st p) \<or> isHeapProfilerRunning (st p)
            then exitHandlerCalled (st (step p (t, e)))
                 \<and> exit_stops (trace (st (step p (t, e)))) = 1
            else \<not> exitHandlerCalled (st (step p (t, e)))
                 \<and> exit_stops (trace (st (step p (t, e)))) = 0)"
    if "t \<in> {BeforeExit, ExitCall, SIGINT, SIGTERM}" and "\<not> exited p"
    using step_latch_inv [OF inv, of "(t, e)"] trigger_latch [OF that, of e] assms
    by (simp add: latch_inv_def guard_def)
  show ?thesis
    using a b c by blast
qed

theorem exit_latch_single_fire_witness:
  "\<not> exitHandlerCalled (st (proc profiling)) \<and> exit_stops (trace (st (proc profiling))) = 0
   \<and> exit_stops (trace (st (run [(BeforeExit, clock), (SIGINT, later_clock)] (proc profiling)))) = 1
   \<and> exitHandlerCalled (st (run [(BeforeExit, clock)] (proc profiling)))
   \<and> exit_stops (trace (st (run ([(BeforeExit, clock)] @ [(SIGINT, later_clock), (ExitCall, later_clock)])
                                (proc profiling)))) = 1
   \<and> exitHandlerCalled (st (step (proc profiling) (SIGTERM, clock)))
   \<and> exit_stops (trace (st (step (proc profiling) (SIGTERM, clock)))) = 1"
proof -
  have h: "\<not> exitHandlerCalled (st (proc profiling))" "exit_stops (trace (st (proc profiling))) = 0"
    by (simp_all add: input_defs)
  have l: "exitHandlerCalled (st (run [(BeforeExit, clock)] (proc profiling)))"
    by (simp add: run_def step_def input_defs on_beforeExit_latch guard_def)
  have r: "isCpuProfilerRunning (st (proc profiling))" "\<not> exited (proc profiling)"
    by (simp_all add: input_defs)
  have "run [(BeforeExit, clock), (SIGINT, later_clock)] (proc profiling)
          = run [(SIGINT, later_clock)] (run [(BeforeExit, clock)] (proc profiling))"
    by (simp add: run_def)
  then have l2:
    "exitHandlerCalled (st (run [(BeforeExit, clock), (SIGINT, later_clock)] (proc profiling)))"
    using run_latch_mono [OF l, of "[(SIGINT, later_clock)]"] by simp
  note first = exit_latch_single_fire
    [OF h, of "[(BeforeExit, clock), (SIGINT, later_clock)]" "[]" SIGTERM clock]
  note later = exit_latch_single_fire
    [OF h, of "[(BeforeExit, clock)]" "[(SIGINT, later_clock), (ExitCall, later_clock)]" SIGTERM clock]
  have c1: "exit_stops (trace (st (run [(BeforeExit, clock), (SIGINT, later_clock)] (proc profiling)))) = 1"
    using conjunct1 [OF first] l2 by simp
  have c2: "exit_stops (trace (st (run ([(BeforeExit, clock)] @ [(SIGINT, later_clock), (ExitCall, later_clock)])
                                (proc profiling)))) = 1"
    using conjunct1 [OF conjunct2 [OF later]] l by blast
  have c3: "exitHandlerCalled (st (step (proc profiling) (SIGTERM, clock)))
            \<and> exit_stops (trace (st (step (proc profiling) (SIGTERM, clock)))) = 1"
    using conjunct2 [OF conjunct2 [OF first]] r by simp
  show ?thesis
    using h l c1 c2 c3 by blast
qed

subsection \<open>Auto-start with no delay\<close>

text \<open>
  C9, as the claim states it, fails. With auto-start, the delay \<open>none\<close> and sourcemaps
  configured, \<open>startProfiling\<close> awaits the sourcemap promise before it toggles: when the
  preload script has run, neither sampler is running and nothing has been started.
\<close>

theorem autostart_none_counterexample:
  "\<not> isCpuProfilerRunning (snd (preload (none_config True) clock))
   \<and> \<not> isHeapProfilerRunning (snd (preload (none_config True) clock))
   \<and> trace (snd (preload (none_config True) clock)) = []"
  by (simp add: preload_def none_config_def or_default_def startProfiling_def initial_def)

text \<open>
  C9, amended. With auto-start and the delay \<open>none\<close>: when no sourcemap source is
  configured and the two \<open>start\<close> calls return, the preload script itself calls
  \<open>toggleProfiler\<close> once, so both flags are set when it has run, before the target
  program's first line, and nothing is scheduled that would toggle again. When
  sourcemaps are configured, the preload script starts nothing and leaves one
  continuation waiting for the sourcemap promise; that continuation calls
  \<open>toggleProfiler\<close> once and schedules nothing.
\<close>

theorem autostart_none:
  assumes "FLAME_AUTO_START cfg = Some ''true''" and "FLAME_DELAY cfg = Some ''none''"
  shows "(\<not> sourceMapperPromise cfg \<and> CpuStartThrows \<notin> throws e \<and> HeapStartThrows \<notin> throws e \<longrightarrow>
            preload cfg e =
              ([], (initial cfg)\<lparr>isCpuProfilerRunning := True, isHeapProfilerRunning := True,
                                 trace := [CpuStart None, HeapStart 524288 64]\<rparr>))
         \<and> (sourceMapperPromise cfg \<longrightarrow>
              preload cfg e = ([Await AfterSourceMapper], initial cfg)
              \<and> run_callback AfterSourceMapper cfg e' s = ([], snd (toggleProfiler e' s)))"
  using assms
  by (auto simp: preload_def or_default_def startProfiling_def run_callback_def initial_def
        ctl_defs Let_def)

theorem autostart_none_witness:
  "FLAME_AUTO_START (none_config False) = Some ''true''
   \<and> FLAME_DELAY (none_config False) = Some ''none''
   \<and> fst (preload (none_config False) clock) = []
   \<and> isCpuProfilerRunning (snd (preload (none_config False) clock))
   \<and> isHeapProfilerRunning (snd (preload (none_config False) clock))
   \<and> preload (none_config True) clock = ([Await AfterSourceMapper], initial (none_config True))"
proof -
  have h: "FLAME_AUTO_START (none_config maps) = Some ''true''"
    "FLAME_DELAY (none_config maps) = Some ''none''" for maps
    by (simp_all add: none_config_def)
  show ?thesis
    using h [of False] autostart_none [OF h, of False clock] autostart_none [OF h, of True clock]
    by (simp add: none_config_def clock_def)
qed

section \<open>Properties of sourcemap resolution\<close>



lemma mappingInfo_direct_throws:
  "getMappingInfo (path_normalize ps (loc_file loc)) = Some en \<Longrightarrow>
   originalPositionFor (mapConsumer en) (line loc)
     (case column loc of None \<Rightarrow> 0 | Some c \<Rightarrow> if c > 0 then c - 1 else 0) None = Throws \<Longrightarrow>
   mappingInfo ps getMappingInfo cache loc = Throws"
  by (simp add: mappingInfo_def Let_def)


lemma mappingInfo_later_throws:
  "getMappingInfo (path_normalize ps (loc_file loc)) = Some en \<Longrightarrow>
   originalPositionFor (mapConsumer en) (line loc)
     (case column loc of None \<Rightarrow> 0 | Some c \<Rightarrow> if c > 0 then c - 1 else 0) None = Returns d \<Longrightarrow>
   source d = None \<Longrightarrow>
   originalPositionFor (mapConsumer en) (line loc)
     (case column loc of None \<Rightarrow> 0 | Some c \<Rightarrow> if c > 0 then c - 1 else 0)
     (Some LEAST_UPPER_BOUND) = Throws \<Longrightarrow>
   mappingInfo ps getMappingInfo cache loc = Throws"
  by (simp add: mappingInfo_def Let_def)








section \<open>Properties of the profile loader\<close>

text \<open>
  C8. Let \<open>gz\<close> be a compressed form of the bytes \<open>b\<close>: it starts with the magic bytes
  \<open>0x1f 0x8b\<close> and \<open>gunzipSync\<close> returns \<open>b\<close> on it. Then \<open>parseProfile\<close> on a file
  holding \<open>gz\<close> returns what the decoder returns on \<open>b\<close>, and so does \<open>parseProfile\<close> on a
  file holding \<open>b\<close> itself, which does not start with the magic bytes: the two load
  paths agree.
\<close>

theorem parseProfile_gzip_roundtrip:
  assumes "isGzipped gz" and "gunzipSync gz = Inr b"
  shows "parseProfile gunzipSync decode (fs(p \<mapsto> gz)) p
           = (case decode b of Inl err \<Rightarrow> Inl (Thrown err) | Inr profile \<Rightarrow> Inr profile)
         \<and> (\<not> isGzipped b \<longrightarrow>
              parseProfile gunzipSync decode (fs(p \<mapsto> b)) p
                = parseProfile gunzipSync decode (fs(p \<mapsto> gz)) p)"
  using assms by (simp add: parseProfile_def)

theorem parseProfile_gzip_roundtrip_witness:
  "isGzipped [0x1f, 0x8b, 0x0a, 0x02] \<and> toy_gunzip [0x1f, 0x8b, 0x0a, 0x02] = Inr [0x0a, 0x02]
   \<and> \<not> isGzipped [0x0a, 0x02]
   \<and> parseProfile toy_gunzip toy_decode [''profile.pb.gz'' \<mapsto> [0x1f, 0x8b, 0x0a, 0x02]]
        ''profile.pb.gz'' = Inr 2
   \<and> parseProfile toy_gunzip toy_decode [''profile.pb.gz'' \<mapsto> [0x0a, 0x02]] ''profile.pb.gz''
       = Inr 2"
proof -
  have h: "isGzipped [0x1f, 0x8b, 0x0a, 0x02]" "toy_gunzip [0x1f, 0x8b, 0x0a, 0x02] = Inr [0x0a, 0x02]"
    by (simp_all add: isGzipped_def toy_gunzip_def)
  have n: "\<not> isGzipped [0x0a, 0x02]"
    by (simp add: isGzipped_def)
  show ?thesis
    using h n
      parseProfile_gzip_roundtrip [of "[0x1f, 0x8b, 0x0a, 0x02]" toy_gunzip "[0x0a, 0x02]"
        toy_decode Map.empty "''profile.pb.gz''"]
    by (simp add: toy_decode_def)
qed

end
